theory Spec2Isabelle
  imports Complex_Main "HOL-Library.Multiset"
begin

section \<open>Data model and primitives\<close>

text \<open>
  The geometry toolkit of \<^verbatim>\<open>template/geometry_algorithms.cpp\<close>. A \<^verbatim>\<open>double\<close> is
  modelled as an exact real number: every concrete input used below has small integer or
  dyadic coordinates, on which the double arithmetic of the source is exact; the theorems
  about all inputs are theorems of this exact arithmetic. The one
  non-finite double the source stores, \<^verbatim>\<open>numeric_limits<double>::infinity()\<close>, is
  modelled where it occurs (the running minimum of the closest pair, the sentinel of
  Chan's march).

  The fields \<^verbatim>\<open>x\<close> and \<^verbatim>\<open>y\<close> of \<^verbatim>\<open>struct Point\<close> are called \<open>px\<close> and \<open>py\<close>.
\<close>

record Point =
  px :: real
  py :: real

definition pt :: "real \<Rightarrow> real \<Rightarrow> Point" where
  "pt a b = \<lparr>px = a, py = b\<rparr>"

definition cross :: "Point \<Rightarrow> Point \<Rightarrow> Point \<Rightarrow> real" where
  "cross O' A B = (px A - px O') * (py B - py O') - (py A - py O') * (px B - px O')"

definition distSq :: "Point \<Rightarrow> Point \<Rightarrow> real" where
  "distSq A B = (let dx = px A - px B; dy = py A - py B in dx * dx + dy * dy)"

text \<open>The tolerance literal \<^verbatim>\<open>1e-9\<close>.\<close>

definition eps :: real where
  "eps = 1 / 10 ^ 9"

subsection \<open>std::sort and std::inplace_merge\<close>

text \<open>
  \<^verbatim>\<open>std::sort\<close> with a comparator \<open>lt\<close> is modelled by insertion sort, which
  keeps elements that the comparator does not separate in their input order; C++ leaves
  that order open. \<^verbatim>\<open>std::inplace_merge\<close> is the stable merge of two sorted runs.
\<close>

fun insert_by :: "('a \<Rightarrow> 'a \<Rightarrow> bool) \<Rightarrow> 'a \<Rightarrow> 'a list \<Rightarrow> 'a list" where
  "insert_by lt v [] = [v]"
| "insert_by lt v (u # us) = (if lt u v then u # insert_by lt v us else v # u # us)"

fun sort_by :: "('a \<Rightarrow> 'a \<Rightarrow> bool) \<Rightarrow> 'a list \<Rightarrow> 'a list" where
  "sort_by lt [] = []"
| "sort_by lt (v # vs) = insert_by lt v (sort_by lt vs)"

fun merge_by :: "('a \<Rightarrow> 'a \<Rightarrow> bool) \<Rightarrow> 'a list \<Rightarrow> 'a list \<Rightarrow> 'a list" where
  "merge_by lt [] bs = bs"
| "merge_by lt as [] = as"
| "merge_by lt (a # as) (b # bs) =
     (if lt b a then b # merge_by lt (a # as) bs else a # merge_by lt as (b # bs))"

section \<open>Convex hull: Graham scan\<close>

text \<open>
  \<^verbatim>\<open>convexHullGraham\<close> takes its vector by mutable reference, swaps the lowest point
  to the front and sorts the rest in place. The model returns the hull together with the
  caller's vector as the call leaves it.
\<close>

definition graham_lowest :: "Point list \<Rightarrow> nat" where
  "graham_lowest pts =
     fold (\<lambda>i lowest.
             if py (pts ! i) < py (pts ! lowest) \<or>
                (py (pts ! i) = py (pts ! lowest) \<and> px (pts ! i) < px (pts ! lowest))
             then i else lowest)
          [1 ..< length pts] 0"

definition graham_less :: "Point \<Rightarrow> Point \<Rightarrow> Point \<Rightarrow> bool" where
  "graham_less pivot a b =
     (let c = cross pivot a b in
      if \<bar>c\<bar> < eps then distSq pivot a < distSq pivot b else c > 0)"

text \<open>
  The loop that drops points collinear with the pivot, over \<^verbatim>\<open>pts[1..n-1]\<close>: the
  index skips forward while the next point is collinear, then the point is kept.
\<close>

fun graham_filter :: "Point \<Rightarrow> Point list \<Rightarrow> Point list" where
  "graham_filter pivot (a # b # rest) =
     (if \<bar>cross pivot a b\<bar> < eps then graham_filter pivot (b # rest)
      else a # graham_filter pivot (b # rest))"
| "graham_filter pivot rest = rest"

text \<open>The scan's stack is held top first; \<open>graham_pop\<close> is the inner while loop.\<close>

fun graham_pop :: "Point \<Rightarrow> Point list \<Rightarrow> Point list" where
  "graham_pop p (b # a # rest) =
     (if cross a b p \<le> 0 then graham_pop p (a # rest) else b # a # rest)"
| "graham_pop p st = st"

definition graham_scan :: "Point list \<Rightarrow> Point list" where
  "graham_scan filtered = rev (fold (\<lambda>p st. p # graham_pop p st) filtered [])"

definition convexHullGraham :: "Point list \<Rightarrow> Point list \<times> Point list" where
  "convexHullGraham pts =
     (let n = length pts in
      if n < 3 then (pts, pts)
      else
        let lowest = graham_lowest pts;
            pts1 = pts[0 := pts ! lowest, lowest := pts ! 0];
            pivot = pts1 ! 0;
            pts2 = pivot # sort_by (graham_less pivot) (tl pts1);
            filtered = pivot # graham_filter pivot (tl pts2)
        in (graham_scan filtered, pts2))"

section \<open>Convex hull: Jarvis march\<close>

text \<open>
  The do-while loop of \<^verbatim>\<open>convexHullJarvis\<close> ends only when the march comes back to the
  index \<^verbatim>\<open>leftmost\<close>, so it is a partial function: \<open>None\<close> is a march that never
  comes back. The vector is passed by mutable reference; the result pairs the hull with
  the vector as the call leaves it.
\<close>

definition jarvis_leftmost :: "Point list \<Rightarrow> nat" where
  "jarvis_leftmost pts =
     fold (\<lambda>i leftmost. if px (pts ! i) < px (pts ! leftmost) then i else leftmost)
          [1 ..< length pts] 0"

definition jarvis_next :: "Point list \<Rightarrow> nat \<Rightarrow> nat" where
  "jarvis_next pts p =
     fold (\<lambda>i q.
             let c = cross (pts ! p) (pts ! q) (pts ! i) in
             if c < 0 \<or> (\<bar>c\<bar> < eps \<and> distSq (pts ! p) (pts ! i) > distSq (pts ! p) (pts ! q))
             then i else q)
          [0 ..< length pts] ((p + 1) mod length pts)"

partial_function (option) jarvis_loop ::
  "Point list \<Rightarrow> nat \<Rightarrow> nat \<Rightarrow> Point list \<Rightarrow> (Point list \<times> Point list) option" where
  "jarvis_loop pts leftmost p hullv =
     (let hullv' = hullv @ [pts ! p];
          q = jarvis_next pts p
      in if q \<noteq> leftmost then jarvis_loop pts leftmost q hullv' else Some (hullv', pts))"

declare jarvis_loop.simps [code]

definition convexHullJarvis :: "Point list \<Rightarrow> (Point list \<times> Point list) option" where
  "convexHullJarvis pts =
     (let n = length pts in
      if n < 3 then Some (pts, pts)
      else let leftmost = jarvis_leftmost pts in jarvis_loop pts leftmost leftmost [])"

section \<open>Convex hull: Chan's algorithm\<close>

text \<open>
  \<^verbatim>\<open>convexHullChan\<close> takes its vector by value. \<^verbatim>\<open>nextPoint\<close> starts as the
  sentinel \<^verbatim>\<open>(infinity, infinity)\<close>, modelled as \<open>None\<close>; the test
  \<^verbatim>\<open>nextPoint.x == infinity\<close> is the test for \<open>None\<close>. When every candidate
  equals \<^verbatim>\<open>pointOnHull\<close> and the march goes on, the source takes the sentinel as
  the next hull vertex; the model has no such point and stops with \<open>SentinelVertex\<close>.
\<close>

datatype chan_error = SentinelVertex

definition chan_less :: "Point \<Rightarrow> Point \<Rightarrow> bool" where
  "chan_less a b = (px a < px b \<or> (px a = px b \<and> py a < py b))"

partial_function (option) chan_guess :: "nat \<Rightarrow> nat \<Rightarrow> nat option" where
  "chan_guess n m = (if m * m < n then chan_guess n (m * 2) else Some m)"

declare chan_guess.simps [code]

definition chan_hulls :: "Point list \<Rightarrow> nat \<Rightarrow> Point list list" where
  "chan_hulls pts m =
     (let n = length pts; numGroups = (n + m - 1) div m in
      map (\<lambda>i. let start = i * m; end' = min (start + m) n
                in fst (convexHullGraham (take (end' - start) (drop start pts))))
          [0 ..< numGroups])"

definition chan_start :: "Point list \<Rightarrow> Point list list \<Rightarrow> Point" where
  "chan_start pts hulls =
     fold (\<lambda>p startP.
             if py p < py startP \<or> (py p = py startP \<and> px p < px startP) then p else startP)
          (concat hulls) (pts ! 0)"

definition chan_next :: "Point list list \<Rightarrow> Point \<Rightarrow> Point option" where
  "chan_next hulls pointOnHull =
     fold (\<lambda>candidate nextPoint.
             if px candidate = px pointOnHull \<and> py candidate = py pointOnHull then nextPoint
             else (case nextPoint of
                     None \<Rightarrow> Some candidate
                   | Some np \<Rightarrow>
                       let c = cross pointOnHull np candidate in
                       if c < 0 \<or>
                          (\<bar>c\<bar> < eps \<and> distSq pointOnHull candidate > distSq pointOnHull np)
                       then Some candidate else nextPoint))
          (concat hulls) None"

text \<open>
  The inner do-while: it returns the hull built so far, \<^verbatim>\<open>hullPoints\<close> and the value
  of \<^verbatim>\<open>m\<close> on leaving the loop (doubled on the \<^verbatim>\<open>break\<close>).
\<close>

function chan_march ::
  "Point list list \<Rightarrow> Point \<Rightarrow> nat \<Rightarrow> Point \<Rightarrow> Point list \<Rightarrow> nat
     \<Rightarrow> chan_error + (Point list \<times> nat \<times> nat)" where
  "chan_march hulls startP m pointOnHull hullv hullPoints =
     (let hullv' = hullv @ [pointOnHull];
          nextPoint = chan_next hulls pointOnHull;
          hullPoints' = hullPoints + 1
      in if hullPoints' > m then Inr (hullv', hullPoints', m * 2)
         else case nextPoint of
                None \<Rightarrow> Inl SentinelVertex
              | Some np \<Rightarrow>
                  if \<not> (px np = px startP \<and> py np = py startP)
                  then chan_march hulls startP m np hullv' hullPoints'
                  else Inr (hullv', hullPoints', m))"
  by pat_completeness auto
termination
  by (relation "measure (\<lambda>(hulls, startP, m, pointOnHull, hullv, hullPoints). m - hullPoints)")
     auto

partial_function (option) chan_loop ::
  "Point list \<Rightarrow> nat \<Rightarrow> (chan_error + Point list) option" where
  "chan_loop pts m =
     (let hulls = chan_hulls pts m;
          startP = chan_start pts hulls
      in case chan_march hulls startP m startP [] 0 of
           Inl e \<Rightarrow> Some (Inl e)
         | Inr (hullv, hullPoints, m') \<Rightarrow>
             if hullPoints \<le> m' then Some (Inr hullv) else chan_loop pts m')"

declare chan_loop.simps [code]

definition convexHullChan :: "Point list \<Rightarrow> (chan_error + Point list) option" where
  "convexHullChan pts =
     (let n = length pts in
      if n < 3 then Some (Inr pts)
      else let pts' = sort_by chan_less pts in
           case chan_guess n 1 of
             None \<Rightarrow> None
           | Some m \<Rightarrow> chan_loop pts' m)"

section \<open>Rotating calipers: diameter of a convex polygon\<close>

text \<open>
  The inner while loop of \<^verbatim>\<open>convexPolygonDiameter\<close> moves \<^verbatim>\<open>j\<close> round the polygon
  and has no bound of its own, so it is a partial function. The for loop threads
  \<^verbatim>\<open>j\<close> and \<^verbatim>\<open>maxDistSq\<close> through the edges. \<open>None\<close> is a call that never returns.
\<close>

partial_function (option) diameter_advance :: "Point list \<Rightarrow> nat \<Rightarrow> nat \<Rightarrow> nat option" where
  "diameter_advance hullv i j =
     (let n = length hullv; ni = (i + 1) mod n in
      if \<bar>cross (hullv ! i) (hullv ! ni) (hullv ! ((j + 1) mod n))\<bar> >
         \<bar>cross (hullv ! i) (hullv ! ni) (hullv ! j)\<bar>
      then diameter_advance hullv i ((j + 1) mod n)
      else Some j)"

declare diameter_advance.simps [code]

fun diameter_loop :: "Point list \<Rightarrow> nat list \<Rightarrow> nat \<times> real \<Rightarrow> (nat \<times> real) option" where
  "diameter_loop hullv [] (j, maxDistSq) = Some (j, maxDistSq)"
| "diameter_loop hullv (i # is) (j, maxDistSq) =
     (let n = length hullv; ni = (i + 1) mod n in
      case diameter_advance hullv i j of
        None \<Rightarrow> None
      | Some j' \<Rightarrow>
          diameter_loop hullv is
            (j', max (max maxDistSq (distSq (hullv ! i) (hullv ! j')))
                     (distSq (hullv ! ni) (hullv ! j'))))"


section \<open>Delaunay triangulation (Bowyer-Watson)\<close>

text \<open>The fields \<^verbatim>\<open>a\<close>, \<^verbatim>\<open>b\<close>, \<^verbatim>\<open>c\<close> of \<^verbatim>\<open>struct Triangle\<close> are \<open>ta\<close>, \<open>tb\<close>, \<open>tc\<close>.\<close>

record Triangle =
  ta :: Point
  tb :: Point
  tc :: Point

definition tri :: "Point \<Rightarrow> Point \<Rightarrow> Point \<Rightarrow> Triangle" where
  "tri A B C = \<lparr>ta = A, tb = B, tc = C\<rparr>"

definition inCircumcircle :: "Triangle \<Rightarrow> Point \<Rightarrow> bool" where
  "inCircumcircle t p =
     (let ax = px (ta t) - px p; ay = py (ta t) - py p;
          bx = px (tb t) - px p; by = py (tb t) - py p;
          cx = px (tc t) - px p; cy = py (tc t) - py p;
          det = (ax * ax + ay * ay) * (bx * cy - cx * by)
              - (bx * bx + by * by) * (ax * cy - cx * ay)
              + (cx * cx + cy * cy) * (ax * by - bx * ay)
      in det > 0)"

text \<open>The bounding values \<^verbatim>\<open>(minX, minY, maxX, maxY)\<close> of the first loop.\<close>

definition delaunay_bounds :: "Point list \<Rightarrow> real \<times> real \<times> real \<times> real" where
  "delaunay_bounds pts =
     fold (\<lambda>p (minX, minY, maxX, maxY).
             (min minX (px p), min minY (py p), max maxX (px p), max maxY (py p)))
          pts (px (pts ! 0), py (pts ! 0), px (pts ! 0), py (pts ! 0))"

definition superTriangle :: "real \<times> real \<times> real \<times> real \<Rightarrow> Triangle" where
  "superTriangle bnd =
     (case bnd of (minX, minY, maxX, maxY) \<Rightarrow>
        let dx = maxX - minX; dy = maxY - minY;
            dmax = max dx dy;
            midx = (minX + maxX) / 2; midy = (minY + maxY) / 2
        in tri (pt (midx - 2 * dmax) (midy - dmax))
               (pt midx (midy + 2 * dmax))
               (pt (midx + 2 * dmax) (midy - dmax)))"

text \<open>
  The lambda \<^verbatim>\<open>removeDuplicateEdges\<close>: \<^verbatim>\<open>toRemove[k]\<close> is set when edge \<open>k\<close> is
  the reverse of a later edge, or an earlier edge is the reverse of edge \<open>k\<close>.
\<close>

definition edge_match :: "Point \<times> Point \<Rightarrow> Point \<times> Point \<Rightarrow> bool" where
  "edge_match e f =
     (px (fst e) = px (snd f) \<and> py (fst e) = py (snd f) \<and>
      px (snd e) = px (fst f) \<and> py (snd e) = py (fst f))"

definition removeDuplicateEdges :: "(Point \<times> Point) list \<Rightarrow> (Point \<times> Point) list" where
  "removeDuplicateEdges edges =
     (let n = length edges;
          toRemove = (\<lambda>k. list_ex (\<lambda>j. edge_match (edges ! k) (edges ! j)) [k + 1 ..< n] \<or>
                          list_ex (\<lambda>i. edge_match (edges ! i) (edges ! k)) [0 ..< k])
      in map (\<lambda>k. edges ! k) (filter (\<lambda>k. \<not> toRemove k) [0 ..< n]))"

text \<open>One round of the Bowyer-Watson loop: the point \<open>p\<close> is added.\<close>

definition delaunay_insert :: "Point \<Rightarrow> Triangle list \<Rightarrow> Triangle list" where
  "delaunay_insert p triangulation =
     (let polygon = concat (map (\<lambda>t. if inCircumcircle t p
                                       then [(ta t, tb t), (tb t, tc t), (tc t, ta t)]
                                       else []) triangulation);
          newTris = filter (\<lambda>t. \<not> inCircumcircle t p) triangulation
      in newTris @ map (\<lambda>edge. tri (fst edge) (snd edge) p) (removeDuplicateEdges polygon))"

definition outside_bounds :: "real \<times> real \<times> real \<times> real \<Rightarrow> Point \<Rightarrow> bool" where
  "outside_bounds bnd q =
     (case bnd of (minX, minY, maxX, maxY) \<Rightarrow>
        px q < minX \<or> px q > maxX \<or> py q < minY \<or> py q > maxY)"

definition delaunayTriangulation :: "Point list \<Rightarrow> Triangle list" where
  "delaunayTriangulation pts =
     (let n = length pts in
      if n < 3 then []
      else
        let bnd = delaunay_bounds pts;
            superTri = superTriangle bnd;
            triangulation = fold delaunay_insert pts [superTri]
        in filter (\<lambda>t. \<not> (outside_bounds bnd (ta t) \<or> outside_bounds bnd (tb t) \<or>
                            outside_bounds bnd (tc t)))
                  triangulation)"

section \<open>Closest pair of points\<close>

text \<open>
  \<^verbatim>\<open>minDist\<close> starts as \<^verbatim>\<open>numeric_limits<double>::infinity()\<close>, so the distances
  the closest pair computes are real numbers or \<open>Infinity\<close>, ordered as doubles are.
\<close>

datatype edist = Finite real | Infinity

instantiation edist :: linorder
begin

fun less_eq_edist :: "edist \<Rightarrow> edist \<Rightarrow> bool" where
  "less_eq_edist (Finite u) (Finite v) = (u \<le> v)"
| "less_eq_edist d Infinity = True"
| "less_eq_edist Infinity (Finite v) = False"

definition less_edist :: "edist \<Rightarrow> edist \<Rightarrow> bool" where
  "less_edist d e = (d \<le> e \<and> \<not> e \<le> d)"

instance
proof
  fix d e f :: edist
  show "(d < e) = (d \<le> e \<and> \<not> e \<le> d)" by (simp add: less_edist_def)
  show "d \<le> d" by (cases d) simp_all
  show "d \<le> e \<Longrightarrow> e \<le> f \<Longrightarrow> d \<le> f" by (cases d; cases e; cases f) simp_all
  show "d \<le> e \<Longrightarrow> e \<le> d \<Longrightarrow> d = e" by (cases d; cases e) simp_all
  show "d \<le> e \<or> e \<le> d" by (cases d; cases e) auto
qed

end

text \<open>
  A range \<^verbatim>\<open>[pts.begin()+left, pts.begin()+right+1)\<close> of the vector, and the vector
  with that range replaced.
\<close>

definition slice :: "'a list \<Rightarrow> int \<Rightarrow> int \<Rightarrow> 'a list" where
  "slice pts left right = take (nat (right + 1 - left)) (drop (nat left) pts)"

definition splice :: "'a list \<Rightarrow> int \<Rightarrow> int \<Rightarrow> 'a list \<Rightarrow> 'a list" where
  "splice pts left right mid = take (nat left) pts @ mid @ drop (nat (right + 1)) pts"

definition less_y :: "Point \<Rightarrow> Point \<Rightarrow> bool" where
  "less_y a b = (py a < py b)"

definition less_x :: "Point \<Rightarrow> Point \<Rightarrow> bool" where
  "less_x a b = (px a < px b)"

text \<open>The double loop of the base case, over the indices \<open>left \<le> i < j \<le> right\<close>.\<close>

definition closest_brute :: "Point list \<Rightarrow> int \<Rightarrow> int \<Rightarrow> edist" where
  "closest_brute pts left right =
     fold (\<lambda>i minDist.
             fold (\<lambda>j minDist. min minDist (Finite (sqrt (distSq (pts ! nat i) (pts ! nat j)))))
                  [i + 1 .. right] minDist)
          [left .. right] Infinity"

text \<open>
  The scan of the strip: for each \<open>i\<close> the inner loop runs over the following points
  while \<^verbatim>\<open>strip[j].y - strip[i].y < d\<close>.
\<close>

fun strip_inner :: "edist \<Rightarrow> Point \<Rightarrow> Point list \<Rightarrow> edist \<Rightarrow> edist" where
  "strip_inner d p [] minDist = minDist"
| "strip_inner d p (q # qs) minDist =
     (if Finite (py q - py p) < d
      then strip_inner d p qs (min minDist (Finite (sqrt (distSq p q))))
      else minDist)"

fun strip_scan :: "edist \<Rightarrow> Point list \<Rightarrow> edist \<Rightarrow> edist" where
  "strip_scan d [] minDist = minDist"
| "strip_scan d (p # ps) minDist = strip_scan d ps (strip_inner d p ps minDist)"

text \<open>
  \<^verbatim>\<open>closestPairRec\<close> works in place on \<^verbatim>\<open>pts[left..right]\<close>; the model returns the
  vector as the call leaves it, with the distance. \<^verbatim>\<open>closestPair\<close> calls it with
  \<open>left = 0\<close>, and the recursion keeps \<open>0 \<le> left\<close>, where the truncating division
  of \<^verbatim>\<open>(left + right) / 2\<close> is \<open>div\<close>.
\<close>

function closestPairRec :: "Point list \<Rightarrow> int \<Rightarrow> int \<Rightarrow> Point list \<times> edist" where
  "closestPairRec pts left right =
     (if right - left \<le> 3 then
        (splice pts left right (sort_by less_y (slice pts left right)),
         closest_brute pts left right)
      else
        let mid = (left + right) div 2;
            midX = px (pts ! nat mid);
            (pts1, d1) = closestPairRec pts left mid;
            (pts2, d2) = closestPairRec pts1 (mid + 1) right;
            d = min d1 d2;
            pts3 = splice pts2 left right
                     (merge_by less_y (slice pts2 left mid) (slice pts2 (mid + 1) right));
            strip = filter (\<lambda>p. Finite \<bar>px p - midX\<bar> < d) (slice pts3 left right)
        in (pts3, strip_scan d strip d))"
  by pat_completeness auto
termination
  by (relation "measure (\<lambda>(pts, left, right). nat (right - left))") auto

text \<open>
  \<^verbatim>\<open>pts.size() - 1\<close> is computed in \<^verbatim>\<open>size_t\<close> and converted to \<^verbatim>\<open>int\<close>: for the
  empty vector it is \<open>-1\<close>.
\<close>

definition closestPair :: "Point list \<Rightarrow> edist" where
  "closestPair pts =
     (let pts' = sort_by less_x pts
      in snd (closestPairRec pts' 0 (int (length pts') - 1)))"

section \<open>Inputs and reference predicates\<close>

text \<open>The vector \<^verbatim>\<open>points\<close> of \<^verbatim>\<open>main\<close>.\<close>

definition main_points :: "Point list" where
  "main_points = [pt 0 0, pt 1 1, pt 2 2, pt 2 0, pt 2 4, pt 3 3, pt 0 5, pt 4 0]"

definition unit_square :: "Point list" where
  "unit_square = [pt 0 0, pt 1 0, pt 1 1, pt 0 1]"

definition hexagon :: "Point list" where
  "hexagon = [pt 1 0, pt 2 0, pt 3 1, pt 2 2, pt 1 2, pt 0 1]"

text \<open>A square corner cut off, with the first leftmost point in the middle of the left edge.\<close>

definition edge_points :: "Point list" where
  "edge_points = [pt 0 1, pt 0 0, pt 0 2, pt 1 1]"

text \<open>
  Four points in convex position; the third lies \<open>6 / 2 ^ 34\<close> (in cross product)
  outside the segment from the fourth to the second, less than the tolerance.
\<close>

definition thin_points :: "Point list" where
  "thin_points = [pt (- 2 / 2 ^ 17) (1 + 1 / 2 ^ 17), pt (- 2 / 2 ^ 17) 2,
                  pt 1 (2 / 2 ^ 17), pt (1 + 1 / 2 ^ 17) 0]"

text \<open>
  A point lies on or inside a convex polygon given counter-clockwise when it is on the
  left of, or on, the line through every edge.
\<close>

definition on_or_inside :: "Point list \<Rightarrow> Point \<Rightarrow> bool" where
  "on_or_inside poly p =
     list_all (\<lambda>i. 0 \<le> cross (poly ! i) (poly ! ((i + 1) mod length poly)) p)
              [0 ..< length poly]"

text \<open>A polygon is strictly counter-clockwise when every corner is a left turn.\<close>

definition strictly_ccw :: "Point list \<Rightarrow> bool" where
  "strictly_ccw poly =
     list_all (\<lambda>i. 0 < cross (poly ! i) (poly ! ((i + 1) mod length poly))
                               (poly ! ((i + 2) mod length poly)))
              [0 ..< length poly]"

text \<open>
  The circumcircle of a triangle, computed from its centre and not from the determinant
  of \<^verbatim>\<open>inCircumcircle\<close>: a point is strictly inside when it is nearer to the centre than
  the vertices are. Three collinear vertices have no circumcircle.
\<close>

definition circumcenter :: "Triangle \<Rightarrow> Point option" where
  "circumcenter t =
     (let ax = px (ta t); ay = py (ta t); bx = px (tb t); by = py (tb t);
          cx = px (tc t); cy = py (tc t);
          D = 2 * (ax * (by - cy) + bx * (cy - ay) + cx * (ay - by))
      in if D = 0 then None
         else Some (pt (((ax * ax + ay * ay) * (by - cy) + (bx * bx + by * by) * (cy - ay)
                          + (cx * cx + cy * cy) * (ay - by)) / D)
                       (((ax * ax + ay * ay) * (cx - bx) + (bx * bx + by * by) * (ax - cx)
                          + (cx * cx + cy * cy) * (bx - ax)) / D)))"




text \<open>
  \<open>pair_in xs p q\<close>: the points \<open>p\<close> and \<open>q\<close> stand at two places of \<open>xs\<close>; for
  \<open>p = q\<close> this asks only that some point of \<open>xs\<close> is repeated, which gives the same
  distance 0. \<open>is_closest xs d\<close>: \<open>d\<close> is the least distance of such a pair, or
  infinity when there is none.
\<close>

definition pair_in :: "Point list \<Rightarrow> Point \<Rightarrow> Point \<Rightarrow> bool" where
  "pair_in xs p q = (p \<in> set xs \<and> q \<in> set xs \<and> (p = q \<longrightarrow> \<not> distinct xs))"


text \<open>
  A hull as the data model has it: a polygon in strict counter-clockwise order, no three
  vertices collinear. Every vertex other than the two ends of an edge lies strictly on the
  left of that edge.
\<close>

definition convex_ccw :: "Point list \<Rightarrow> bool" where
  "convex_ccw poly =
     list_all (\<lambda>i. list_all (\<lambda>k. k \<noteq> i \<and> k \<noteq> (i + 1) mod length poly \<longrightarrow>
                                   0 < cross (poly ! i) (poly ! ((i + 1) mod length poly)) (poly ! k))
                              [0 ..< length poly])
              [0 ..< length poly]"


text \<open>
  For the proof about the calipers: the vertex at an index taken round the polygon, twice
  the signed area of the triangle on edge \<open>i\<close> with apex \<open>k\<close>, the cross product of
  the edge vectors \<open>i\<close> and \<open>k\<close>, and the vertex \<open>j\<close> at which the area on edge
  \<open>i\<close> stops growing.
\<close>

definition hp :: "Point list \<Rightarrow> nat \<Rightarrow> Point" where
  "hp poly k = poly ! (k mod length poly)"

definition area :: "Point list \<Rightarrow> nat \<Rightarrow> nat \<Rightarrow> real" where
  "area poly i k = cross (hp poly i) (hp poly (i + 1)) (hp poly k)"

definition turn :: "Point list \<Rightarrow> nat \<Rightarrow> nat \<Rightarrow> real" where
  "turn poly i k =
     (px (hp poly (i + 1)) - px (hp poly i)) * (py (hp poly (k + 1)) - py (hp poly k)) -
     (py (hp poly (i + 1)) - py (hp poly i)) * (px (hp poly (k + 1)) - px (hp poly k))"


definition notched :: "Point list" where
  "notched = [pt 0 2, pt 0 1, pt 0 0, pt 2 0, pt 1 2]"

section \<open>Verification\<close>

declare closestPairRec.simps [simp del]

subsection \<open>Graham scan on the points of main\<close>

lemma graham_main_points:
  "fst (convexHullGraham main_points) = [pt 0 0, pt 4 0, pt 3 3, pt 2 4, pt 0 5]"
  by code_simp

text \<open>
  C7, as stated: on the points of \<^verbatim>\<open>main\<close> the Graham hull has the vertex set
  \<open>{(2,0), (4,0), (3,3), (2,4), (0,5), (0,0)}\<close>. It has not: \<open>(2,0)\<close> lies between
  \<open>(0,0)\<close> and \<open>(4,0)\<close> and the filter of collinear points drops it.
\<close>

theorem graham_main_points_not_six:
  "set (fst (convexHullGraham main_points)) \<noteq> {pt 2 0, pt 4 0, pt 3 3, pt 2 4, pt 0 5, pt 0 0}"
proof -
  have "pt 2 0 \<notin> set (fst (convexHullGraham main_points))"
    unfolding graham_main_points by (simp add: pt_def)
  then show ?thesis by auto
qed

text \<open>
  C7, amended: on the points of \<^verbatim>\<open>main\<close> the Graham hull is the five vertices
  \<open>(0,0), (4,0), (3,3), (2,4), (0,5)\<close>, counter-clockwise from the lowest point.
\<close>

theorem graham_main_points_hull:
  "fst (convexHullGraham main_points) = [pt 0 0, pt 4 0, pt 3 3, pt 2 4, pt 0 5] \<and>
   set (fst (convexHullGraham main_points)) = {pt 4 0, pt 3 3, pt 2 4, pt 0 5, pt 0 0} \<and>
   strictly_ccw (fst (convexHullGraham main_points))"
proof -
  have "strictly_ccw [pt 0 0, pt 4 0, pt 3 3, pt 2 4, pt 0 5]"
    by code_simp
  then show ?thesis
    unfolding graham_main_points by auto
qed

subsection \<open>The three hull algorithms against each other\<close>

text \<open>
  C1 says that the three hull algorithms return the same vertex set. On the unit square
  Graham and Jarvis return its four corners and Chan returns three of them: the march
  stops after \<open>m + 1 = 3\<close> vertices, \<^verbatim>\<open>m\<close> is doubled before the test
  \<^verbatim>\<open>hullPoints <= m\<close>, and that test then leaves the outer loop with the unfinished hull.
\<close>

theorem chan_truncates_unit_square:
  "fst (convexHullGraham unit_square) = [pt 0 0, pt 1 0, pt 1 1, pt 0 1] \<and>
   convexHullJarvis unit_square = Some ([pt 0 0, pt 1 0, pt 1 1, pt 0 1], unit_square) \<and>
   convexHullChan unit_square = Some (Inr [pt 0 0, pt 1 0, pt 1 1])"
  by code_simp

text \<open>
  C2 says that every input point lies on or inside the returned hull. On a hexagon Chan
  returns five of the six corners, and the sixth, \<open>(0,1)\<close>, lies outside that pentagon.
\<close>

theorem chan_loses_hexagon_vertex:
  "convexHullChan hexagon = Some (Inr [pt 1 0, pt 2 0, pt 3 1, pt 2 2, pt 1 2]) \<and>
   pt 0 1 \<in> set hexagon \<and>
   \<not> on_or_inside [pt 1 0, pt 2 0, pt 3 1, pt 2 2, pt 1 2] (pt 0 1)"
  by code_simp

text \<open>
  C8 says that the hull of a hull is that hull. Graham returns the unit square as its own
  hull, and Chan applied to that hull returns a triangle.
\<close>

theorem rehull_not_idempotent:
  "convexHullGraham unit_square = (unit_square, unit_square) \<and>
   convexHullChan (fst (convexHullGraham unit_square)) = Some (Inr [pt 0 0, pt 1 0, pt 1 1])"
  by code_simp

text \<open>
  Jarvis alone is not idempotent either: on \<open>thin_points\<close> it returns all four points,
  and on that hull it returns three. The test \<^verbatim>\<open>c < 0\<close> is exact while the test for
  collinear points has the tolerance, so the outcome depends on the order of the vector.
\<close>

lemma jarvis_thin_points:
  "convexHullJarvis thin_points =
     Some ([pt (- 2 / 2 ^ 17) (1 + 1 / 2 ^ 17), pt (1 + 1 / 2 ^ 17) 0, pt 1 (2 / 2 ^ 17),
            pt (- 2 / 2 ^ 17) 2], thin_points)"
  by code_simp

lemma jarvis_thin_points_again:
  "map_option fst
     (convexHullJarvis [pt (- 2 / 2 ^ 17) (1 + 1 / 2 ^ 17), pt (1 + 1 / 2 ^ 17) 0,
                        pt 1 (2 / 2 ^ 17), pt (- 2 / 2 ^ 17) 2]) =
   Some [pt (- 2 / 2 ^ 17) (1 + 1 / 2 ^ 17), pt (1 + 1 / 2 ^ 17) 0, pt (- 2 / 2 ^ 17) 2]"
  by code_simp

subsection \<open>Jarvis march: the argument and termination\<close>

lemma jarvis_loop_frame:
  assumes "jarvis_loop pts leftmost p hullv = Some r"
  shows "snd r = pts"
proof (rule jarvis_loop.raw_induct
         [where P = "\<lambda>pts leftmost p hullv r. snd r = pts", OF _ assms])
  fix f pts leftmost p hullv and r :: "Point list \<times> Point list"
  assume IH: "\<And>pts leftmost p hullv r. f pts leftmost p hullv = Some r \<Longrightarrow> snd r = pts"
    and body: "(let hullv' = hullv @ [pts ! p]; q = jarvis_next pts p
                in if q \<noteq> leftmost then f pts leftmost q hullv' else Some (hullv', pts))
               = Some r"
  show "snd r = pts"
  proof (cases "jarvis_next pts p \<noteq> leftmost")
    case True
    with body have "f pts leftmost (jarvis_next pts p) (hullv @ [pts ! p]) = Some r"
      by (simp add: Let_def)
    then show ?thesis by (rule IH)
  next
    case False
    with body show ?thesis by (auto simp add: Let_def)
  qed
qed

text \<open>
  C9: \<^verbatim>\<open>convexHullJarvis\<close> takes the vector by mutable reference and never writes to
  it: whenever the call returns, the caller's vector is as it was.
\<close>

theorem jarvis_leaves_argument:
  "convexHullJarvis pts = Some (h, pts') \<Longrightarrow> pts' = pts"
proof -
  assume r: "convexHullJarvis pts = Some (h, pts')"
  show "pts' = pts"
  proof (cases "length pts < 3")
    case True
    with r show ?thesis by (auto simp add: convexHullJarvis_def)
  next
    case False
    with r have "jarvis_loop pts (jarvis_leftmost pts) (jarvis_leftmost pts) [] = Some (h, pts')"
      by (simp add: convexHullJarvis_def Let_def)
    from jarvis_loop_frame [OF this] show ?thesis by simp
  qed
qed

theorem jarvis_leaves_argument_witness:
  "convexHullJarvis unit_square = Some ([pt 0 0, pt 1 0, pt 1 1, pt 0 1], unit_square) \<and>
   unit_square = [pt 0 0, pt 1 0, pt 1 1, pt 0 1]"
proof -
  have r: "convexHullJarvis unit_square = Some ([pt 0 0, pt 1 0, pt 1 1, pt 0 1], unit_square)"
    by code_simp
  from jarvis_leaves_argument [OF r] r show ?thesis
    by (simp add: unit_square_def)
qed

text \<open>Graham scan, which takes the vector the same way, does reorder it.\<close>

lemma graham_reorders_argument:
  "snd (convexHullGraham main_points) \<noteq> main_points"
  by code_simp

text \<open>
  The march need not come back to \<^verbatim>\<open>leftmost\<close>. On \<open>edge_points\<close> the first leftmost
  point is no corner of the hull; the march leaves it and then cycles through the three
  corners for ever.
\<close>

lemma jarvis_cycle_edge_points:
  assumes "jarvis_loop pts leftmost p hullv = Some r"
  shows "pts = edge_points \<and> leftmost = 0 \<longrightarrow> p \<notin> {1, 2, 3}"
proof (rule jarvis_loop.raw_induct
         [where P = "\<lambda>pts leftmost p hullv r.
                       pts = edge_points \<and> leftmost = 0 \<longrightarrow> p \<notin> {1, 2, 3}", OF _ assms])
  fix f pts leftmost p hullv and r :: "Point list \<times> Point list"
  assume IH: "\<And>pts leftmost p hullv r. f pts leftmost p hullv = Some r \<Longrightarrow>
                pts = edge_points \<and> leftmost = 0 \<longrightarrow> p \<notin> {1, 2, 3}"
    and body: "(let hullv' = hullv @ [pts ! p]; q = jarvis_next pts p
                in if q \<noteq> leftmost then f pts leftmost q hullv' else Some (hullv', pts))
               = Some r"
  have step: "jarvis_next edge_points 1 = 3" "jarvis_next edge_points 2 = 1"
    "jarvis_next edge_points 3 = 2"
    by code_simp+
  show "pts = edge_points \<and> leftmost = 0 \<longrightarrow> p \<notin> {1, 2, 3}"
  proof (intro impI notI, elim conjE)
    assume a: "pts = edge_points" "leftmost = 0" and "p \<in> {1, 2, 3}"
    then have q: "jarvis_next pts p \<in> {1, 2, 3}"
      using step by auto
    with a body have "f edge_points 0 (jarvis_next pts p) (hullv @ [pts ! p]) = Some r"
      by (auto simp add: Let_def)
    from IH [OF this] q a show False by simp
  qed
qed

lemma jarvis_diverges_edge_points:
  "convexHullJarvis edge_points = None"
proof (cases "convexHullJarvis edge_points")
  case None
  then show ?thesis .
next
  case (Some r)
  have l: "jarvis_leftmost edge_points = 0" by code_simp
  have n: "jarvis_next edge_points 0 = 1" by code_simp
  have len: "length edge_points = 4" by (simp add: edge_points_def)
  from Some have "jarvis_loop edge_points 0 0 [] = Some r"
    by (simp add: convexHullJarvis_def Let_def l len)
  then have "jarvis_loop edge_points 0 1 ([] @ [edge_points ! 0]) = Some r"
    by (subst (asm) jarvis_loop.simps) (simp add: Let_def n)
  from jarvis_cycle_edge_points [OF this] show ?thesis by simp
qed

subsection \<open>Degenerate inputs\<close>

lemma closestPair_small:
  assumes "length pts < 2"
  shows "closestPair pts = Infinity"
proof -
  from assms consider "pts = []" | p where "pts = [p]"
    by (cases pts; cases "tl pts") auto
  then show ?thesis
  proof cases
    case 1
    then show ?thesis
      by (simp add: closestPair_def closestPairRec.simps closest_brute_def)
  next
    case 2
    then show ?thesis
      by (simp add: closestPair_def closestPairRec.simps closest_brute_def upto.simps)
  qed
qed

text \<open>
  C6, as stated: \<^verbatim>\<open>closestPair\<close> returns 0 on fewer than two points. It returns the
  initial value of \<^verbatim>\<open>minDist\<close>, infinity.
\<close>

theorem closestPair_fallback_not_zero:
  "closestPair [] \<noteq> Finite 0 \<and> closestPair [pt 3 4] \<noteq> Finite 0"
  by (simp add: closestPair_small)

text \<open>
  C6, amended: on fewer than two points \<^verbatim>\<open>closestPair\<close> returns infinity, and on fewer
  than three points each hull algorithm returns its input; none of them fails.
\<close>

theorem degenerate_inputs:
  "(length pts < 2 \<longrightarrow> closestPair pts = Infinity) \<and>
   (length pts < 3 \<longrightarrow>
      convexHullGraham pts = (pts, pts) \<and>
      convexHullJarvis pts = Some (pts, pts) \<and>
      convexHullChan pts = Some (Inr pts))"
  by (simp add: closestPair_small convexHullGraham_def convexHullJarvis_def
        convexHullChan_def)

theorem degenerate_inputs_witness:
  "length [pt 3 4] < 2 \<and> closestPair [pt 3 4] = Infinity \<and>
   length [pt 3 4] < 3 \<and>
   convexHullGraham [pt 3 4] = ([pt 3 4], [pt 3 4]) \<and>
   convexHullJarvis [pt 3 4] = Some ([pt 3 4], [pt 3 4]) \<and>
   convexHullChan [pt 3 4] = Some (Inr [pt 3 4])"
  using degenerate_inputs [of "[pt 3 4]"] by simp

text \<open>
  C10: on fewer than three points \<^verbatim>\<open>delaunayTriangulation\<close> returns the empty list of
  triangles.
\<close>

theorem delaunay_small_empty:
  "length pts < 3 \<Longrightarrow> delaunayTriangulation pts = []"
  by (simp add: delaunayTriangulation_def)

theorem delaunay_small_empty_witness:
  "length [pt 0 0, pt 1 1] < 3 \<and> delaunayTriangulation [pt 0 0, pt 1 1] = []"
  using delaunay_small_empty [of "[pt 0 0, pt 1 1]"] by simp

subsection \<open>Delaunay triangulation\<close>

lemma circumcenter_algebra:
  fixes ax ay bx "by" cx cy ux uy D :: real
  assumes D: "D = 2 * (ax * (by - cy) + bx * (cy - ay) + cx * (ay - by))" and D0: "D \<noteq> 0"
    and ux: "ux = ((ax * ax + ay * ay) * (by - cy) + (bx * bx + by * by) * (cy - ay)
                          + (cx * cx + cy * cy) * (ay - by)) / D"
    and uy: "uy = ((ax * ax + ay * ay) * (cx - bx) + (bx * bx + by * by) * (ax - cx)
                          + (cx * cx + cy * cy) * (bx - ax)) / D"
  shows "(ux - ax) * (ux - ax) + (uy - ay) * (uy - ay) = (ux - bx) * (ux - bx) + (uy - by) * (uy - by)"
    and "(ux - bx) * (ux - bx) + (uy - by) * (uy - by) = (ux - cx) * (ux - cx) + (uy - cy) * (uy - cy)"
proof -
  have x: "ux * D = (ax * ax + ay * ay) * (by - cy) + (bx * bx + by * by) * (cy - ay)
                          + (cx * cx + cy * cy) * (ay - by)"
    using D0 ux by simp
  have y: "uy * D = (ax * ax + ay * ay) * (cx - bx) + (bx * bx + by * by) * (ax - cx)
                          + (cx * cx + cy * cy) * (bx - ax)"
    using D0 uy by simp
  have "((ux - ax) * (ux - ax) + (uy - ay) * (uy - ay) - ((ux - bx) * (ux - bx) + (uy - by) * (uy - by))) * D = 0"
    using x y D by algebra
  then show "(ux - ax) * (ux - ax) + (uy - ay) * (uy - ay) = (ux - bx) * (ux - bx) + (uy - by) * (uy - by)"
    using D0 by simp
  have "((ux - bx) * (ux - bx) + (uy - by) * (uy - by) - ((ux - cx) * (ux - cx) + (uy - cy) * (uy - cy))) * D = 0"
    using x y D by algebra
  then show "(ux - bx) * (ux - bx) + (uy - by) * (uy - by) = (ux - cx) * (ux - cx) + (uy - cy) * (uy - cy)"
    using D0 by simp
qed

lemma circumcenter_equidistant:
  assumes "circumcenter t = Some u"
  shows "distSq u (ta t) = distSq u (tb t) \<and> distSq u (tb t) = distSq u (tc t)"
proof -
  define D where "D = 2 * (px (ta t) * (py (tb t) - py (tc t)) + px (tb t) * (py (tc t) - py (ta t)) + px (tc t) * (py (ta t) - py (tb t)))"
  from assms have D0: "D \<noteq> 0"
    by (auto simp: circumcenter_def Let_def D_def split: if_splits)
  from assms D0 have u: "u = pt (((px (ta t) * px (ta t) + py (ta t) * py (ta t)) * (py (tb t) - py (tc t)) + (px (tb t) * px (tb t) + py (tb t) * py (tb t)) * (py (tc t) - py (ta t))
                          + (px (tc t) * px (tc t) + py (tc t) * py (tc t)) * (py (ta t) - py (tb t))) / D)
         (((px (ta t) * px (ta t) + py (ta t) * py (ta t)) * (px (tc t) - px (tb t)) + (px (tb t) * px (tb t) + py (tb t) * py (tb t)) * (px (ta t) - px (tc t))
                          + (px (tc t) * px (tc t) + py (tc t) * py (tc t)) * (px (tb t) - px (ta t))) / D)"
    unfolding circumcenter_def Let_def D_def by (simp split: if_splits)
  have x: "px u = ((px (ta t) * px (ta t) + py (ta t) * py (ta t)) * (py (tb t) - py (tc t)) + (px (tb t) * px (tb t) + py (tb t) * py (tb t)) * (py (tc t) - py (ta t))
                          + (px (tc t) * px (tc t) + py (tc t) * py (tc t)) * (py (ta t) - py (tb t))) / D"
    by (subst u) (simp add: pt_def)
  have y: "py u = ((px (ta t) * px (ta t) + py (ta t) * py (ta t)) * (px (tc t) - px (tb t)) + (px (tb t) * px (tb t) + py (tb t) * py (tb t)) * (px (ta t) - px (tc t))
                          + (px (tc t) * px (tc t) + py (tc t) * py (tc t)) * (px (tb t) - px (ta t))) / D"
    by (subst u) (simp add: pt_def)
  from circumcenter_algebra[OF D_def D0 x y] show ?thesis
    by (simp add: distSq_def Let_def)
qed

lemma super_det:
  fixes u v D :: real
  assumes "\<bar>u\<bar> \<le> D / 2" "\<bar>v\<bar> \<le> D / 2"
  shows "((- 2 * D - u) * (- 2 * D - u) + (- D - v) * (- D - v)) * ((- u) * (- D - v) - (2 * D - u) * (2 * D - v))
       - ((- u) * (- u) + (2 * D - v) * (2 * D - v)) * ((- 2 * D - u) * (- D - v) - (2 * D - u) * (- D - v))
       + ((2 * D - u) * (2 * D - u) + (- D - v) * (- D - v)) * ((- 2 * D - u) * (2 * D - v) - (- u) * (- D - v)) \<le> 0"
    (is "?det \<le> 0")
proof -
  have D: "0 \<le> D" using assms by linarith
  have e: "?det = - 56 * D^4 + 12 * D^2 * u^2 + 12 * D^2 * v^2 + 4 * D^3 * v"
    by (simp add: power2_eq_square power3_eq_cube power4_eq_xxxx algebra_simps)
  have u2: "u^2 \<le> (D/2)^2" using assms(1) D by (simp add: abs_le_square_iff[symmetric])
  have v2: "v^2 \<le> (D/2)^2" using assms(2) D by (simp add: abs_le_square_iff[symmetric])
  have "12 * D^2 * u^2 \<le> 12 * D^2 * (D/2)^2" using u2 by (intro mult_left_mono) simp_all
  moreover have "12 * D^2 * v^2 \<le> 12 * D^2 * (D/2)^2" using v2 by (intro mult_left_mono) simp_all
  moreover have "4 * D^3 * v \<le> 4 * D^3 * (D/2)" using assms(2) D by (intro mult_left_mono) simp_all
  moreover have "12 * D^2 * (D/2)^2 = 3 * D^4" "4 * D^3 * (D/2) = 2 * D^4"
    by (simp_all add: power2_eq_square power3_eq_cube power4_eq_xxxx)
  moreover have "0 \<le> D^4" by simp
  ultimately show ?thesis unfolding e by linarith
qed


lemma delaunay_bounds_fold:
  assumes "fold (\<lambda>p (minX, minY, maxX, maxY).
             (min minX (px p), min minY (py p), max maxX (px p), max maxY (py p))) pts (a, b, c, d)
           = (a', b', c', d')"
  shows "a' \<le> a \<and> b' \<le> b \<and> c \<le> c' \<and> d \<le> d' \<and>
         (\<forall>p\<in>set pts. a' \<le> px p \<and> px p \<le> c' \<and> b' \<le> py p \<and> py p \<le> d')"
  using assms
proof (induction pts arbitrary: a b c d)
  case Nil
  then show ?case by simp
next
  case (Cons q pts)
  from Cons.prems have "fold (\<lambda>p (minX, minY, maxX, maxY).
             (min minX (px p), min minY (py p), max maxX (px p), max maxY (py p))) pts
             (min a (px q), min b (py q), max c (px q), max d (py q)) = (a', b', c', d')"
    by simp
  from Cons.IH [OF this] show ?case by auto
qed

lemma delaunay_bounds_contain:
  assumes "delaunay_bounds pts = (minX, minY, maxX, maxY)" and "p \<in> set pts"
  shows "minX \<le> px p \<and> px p \<le> maxX \<and> minY \<le> py p \<and> py p \<le> maxY"
  using delaunay_bounds_fold [OF assms(1) [unfolded delaunay_bounds_def]] assms(2) by blast

lemma superTriangle_not_inCircumcircle:
  assumes "minX \<le> px p" "px p \<le> maxX" "minY \<le> py p" "py p \<le> maxY"
  shows "\<not> inCircumcircle (superTriangle (minX, minY, maxX, maxY)) p"
proof -
  define D where "D = max (maxX - minX) (maxY - minY)"
  define u where "u = px p - (minX + maxX) / 2"
  define v where "v = py p - (minY + maxY) / 2"
  have "\<bar>u\<bar> \<le> (maxX - minX) / 2" using assms by (simp add: u_def abs_le_iff field_simps)
  then have u: "\<bar>u\<bar> \<le> D / 2" by (simp add: D_def)
  have "\<bar>v\<bar> \<le> (maxY - minY) / 2" using assms by (simp add: v_def abs_le_iff field_simps)
  then have v: "\<bar>v\<bar> \<le> D / 2" by (simp add: D_def)
  have c: "(minX + maxX) / 2 - 2 * D - px p = - 2 * D - u" "(minY + maxY) / 2 - D - py p = - D - v"
    "(minX + maxX) / 2 - px p = - u" "(minY + maxY) / 2 + 2 * D - py p = 2 * D - v"
    "(minX + maxX) / 2 + 2 * D - px p = 2 * D - u"
    by (simp_all add: u_def v_def)
  show ?thesis
    unfolding inCircumcircle_def superTriangle_def Let_def tri_def pt_def
    using super_det [OF u v]
    by (simp add: D_def[symmetric] c)
qed


lemma delaunay_insert_keep:
  assumes "\<not> inCircumcircle T p"
  shows "delaunay_insert p [T] = [T]"
  using assms by (simp add: delaunay_insert_def removeDuplicateEdges_def)

lemma delaunay_fold_keep:
  assumes "\<forall>p\<in>set pts. \<not> inCircumcircle T p"
  shows "fold delaunay_insert pts [T] = [T]"
  using assms by (induction pts) (simp_all add: delaunay_insert_keep)

lemma delaunay_only_superTriangle:
  assumes "3 \<le> length pts"
  shows "delaunayTriangulation pts =
           filter (\<lambda>t. \<not> (outside_bounds (delaunay_bounds pts) (ta t) \<or>
                             outside_bounds (delaunay_bounds pts) (tb t) \<or>
                             outside_bounds (delaunay_bounds pts) (tc t)))
                  [superTriangle (delaunay_bounds pts)]"
proof -
  obtain minX minY maxX maxY where b: "delaunay_bounds pts = (minX, minY, maxX, maxY)"
    by (cases "delaunay_bounds pts") auto
  have "\<forall>p\<in>set pts. \<not> inCircumcircle (superTriangle (delaunay_bounds pts)) p"
    unfolding b using delaunay_bounds_contain [OF b] superTriangle_not_inCircumcircle by blast
  from delaunay_fold_keep [OF this] assms show ?thesis
    by (simp add: delaunayTriangulation_def Let_def)
qed

lemma superTriangle_inside_bounds:
  assumes "minX \<le> maxX" "minY \<le> maxY"
    and "\<not> outside_bounds (minX, minY, maxX, maxY) (ta (superTriangle (minX, minY, maxX, maxY)))"
    and "\<not> outside_bounds (minX, minY, maxX, maxY) (tb (superTriangle (minX, minY, maxX, maxY)))"
  shows "max (maxX - minX) (maxY - minY) = 0"
proof -
  define D where "D = max (maxX - minX) (maxY - minY)"
  have D: "maxX - minX \<le> D" "maxY - minY \<le> D" "0 \<le> D" using assms(1) by (simp_all add: D_def)
  from assms(3) have "minX \<le> (minX + maxX) / 2 - 2 * D"
    by (simp add: outside_bounds_def superTriangle_def Let_def tri_def pt_def D_def)
  with D have "D \<le> 0" by (simp add: field_simps)
  with D show ?thesis unfolding D_def by linarith
qed




text \<open>
  The super-triangle is given clockwise, so \<^verbatim>\<open>inCircumcircle\<close> is false for every point
  of the bounding box, no point is ever inserted, and the final filter removes the
  super-triangle: unless all points coincide, the triangulation returned is empty.
\<close>

lemma delaunay_empty_unless_coincident:
  assumes "3 \<le> length pts" and "p \<in> set pts" "q \<in> set pts" "p \<noteq> q"
  shows "delaunayTriangulation pts = []"
proof -
  obtain minX minY maxX maxY where b: "delaunay_bounds pts = (minX, minY, maxX, maxY)"
    by (cases "delaunay_bounds pts") auto
  from delaunay_bounds_contain [OF b] assms(2,3)
  have in_p: "minX \<le> px p \<and> px p \<le> maxX \<and> minY \<le> py p \<and> py p \<le> maxY"
    and in_q: "minX \<le> px q \<and> px q \<le> maxX \<and> minY \<le> py q \<and> py q \<le> maxY" by auto
  from assms(4) have "px p \<noteq> px q \<or> py p \<noteq> py q" by (cases p; cases q) auto
  with in_p in_q have pos: "max (maxX - minX) (maxY - minY) \<noteq> 0" by auto
  have le: "minX \<le> maxX" "minY \<le> maxY" using in_p by auto
  show ?thesis
    unfolding delaunay_only_superTriangle [OF assms(1)] b
    using superTriangle_inside_bounds [OF le] pos by auto
qed


subsection \<open>Closest pair\<close>

lemma distSq_same [simp]: "distSq p p = 0"
  by (simp add: distSq_def)


lemma distSq_nonneg [simp]: "0 \<le> distSq p q"
  by (simp add: distSq_def Let_def)



lemma edist_less_Finite [simp]: "(Finite u < Finite v) = (u < v)"
  by (auto simp: less_edist_def)

lemma edist_less_Infinity [simp]: "(Finite u < Infinity)" "\<not> Infinity < d"
  by (cases d; simp add: less_edist_def)+


lemma edist_le_Infinity [simp]: "(Infinity \<le> d) = (d = Infinity)"
  by (cases d) simp_all



lemma pair_in_length: "pair_in xs p q \<Longrightarrow> 2 \<le> length xs"
proof -
  assume a: "pair_in xs p q"
  show ?thesis
  proof (cases xs)
    case Nil with a show ?thesis by (simp add: pair_in_def)
  next
    case (Cons x xs')
    show ?thesis
    proof (cases xs')
      case Nil with Cons a show ?thesis by (auto simp: pair_in_def)
    next
      case (Cons y ys) with \<open>xs = x # xs'\<close> show ?thesis by simp
    qed
  qed
qed











paragraph \<open>Sorting and merging\<close>

lemma mset_insert_by [simp]: "mset (insert_by lt v us) = add_mset v (mset us)"
  by (induction us) simp_all


lemma mset_merge_by [simp]: "mset (merge_by lt as bs) = mset as + mset bs"
  by (induction lt as bs rule: merge_by.induct) simp_all

lemma set_insert_by [simp]: "set (insert_by lt v us) = insert v (set us)"
  by (induction us) auto



lemma set_merge_by [simp]: "set (merge_by lt as bs) = set as \<union> set bs"
  by (induction lt as bs rule: merge_by.induct) auto




paragraph \<open>Ranges of the vector and the base case\<close>





lemma min_Infinity [simp]: "min Infinity d = d" "min d Infinity = d"
  by (simp_all add: min_def)




paragraph \<open>The scan of the strip\<close>








paragraph \<open>Merging the two halves\<close>









paragraph \<open>The recursion\<close>








subsection \<open>Rotating calipers\<close>

lemma hp_mod [simp]: "hp H (k mod length H) = hp H k"
  by (simp add: hp_def)

lemma hp_add_length [simp]: "hp H (k + length H) = hp H k"
  by (simp add: hp_def)

lemma hp_mod_Suc: "hp H (k mod length H + 1) = hp H (k + 1)"
  by (simp add: hp_def mod_Suc_eq)

lemma hp_cong: "k mod length H = l mod length H \<Longrightarrow> hp H k = hp H l"
  by (simp add: hp_def)

lemma hp_cong_Suc: "k mod length H = l mod length H \<Longrightarrow> hp H (k + 1) = hp H (l + 1)"
  by (rule hp_cong) (metis mod_add_left_eq)


lemma area_cong:
  assumes "i mod length H = i' mod length H" "k mod length H = k' mod length H"
  shows "area H i k = area H i' k'"
proof -
  have "hp H i = hp H i'" "hp H (i + 1) = hp H (i' + 1)" "hp H k = hp H k'"
    by (rule hp_cong hp_cong_Suc, rule assms)+
  then show ?thesis unfolding area_def by (simp only:)
qed


lemma turn_self [simp]: "turn H i i = 0"
  by (simp add: turn_def)











paragraph \<open>The inner while loop\<close>








paragraph \<open>The vertex where the loop stops\<close>







paragraph \<open>A farthest pair is met\<close>






paragraph \<open>The for loop and the result\<close>















text \<open>
  The strict order is needed: with the vertex \<open>(0,1)\<close> on the edge from \<open>(0,2)\<close> to
  \<open>(0,0)\<close> the loop ends with \<^verbatim>\<open>maxDistSq = 5\<close>, and \<open>(0,2)\<close> and \<open>(2,0)\<close> are
  at squared distance 8.
\<close>

lemma diameter_notched:
  "\<not> convex_ccw notched \<and>
   map_option snd (diameter_loop notched [0 ..< length notched] (1, 0)) = Some 5 \<and>
   distSq (notched ! 0) (notched ! 3) = 8"
  by code_simp


end
